theory Spec2Isabelle
  imports Main "HOL-Library.AList" "HOL-Library.List_Lexorder" "HOL-Library.Char_ord"
    "HOL-Library.Product_Lexorder" "HOL-Library.Multiset"
begin

section \<open>The reference index of \<^verbatim>\<open>siptools/mdcreator.py\<close>\<close>

text \<open>
  The module keeps, per workspace, line-delimited JSON index files that map a path (a file
  or a directory) to the metadata IDs referenced for it, and to per-stream ID lists.
  The development below embeds the functions of \<^verbatim>\<open>mdcreator.py\<close> that write,
  merge, read and filter such an index, and the content-addressed metadata writer
  \<^verbatim>\<open>write_md\<close>.
\<close>

subsection \<open>Python values\<close>

text \<open>The exceptions that the embedded code can raise.\<close>

datatype pyerror = KeyError | IndexError | ValueError | IOError

text \<open>
  A Python \<^verbatim>\<open>dict\<close> is an association list in insertion order with one pair per key:
  \<^verbatim>\<open>d[k] = v\<close> is \<^const>\<open>AList.update\<close> (an existing key keeps its position, a new
  key goes last), \<^verbatim>\<open>d[k]\<close> raises \<^verbatim>\<open>KeyError\<close> on a missing key.
\<close>

type_synonym ('k, 'v) pydict = "('k \<times> 'v) list"

definition getitem :: "('k, 'v) pydict \<Rightarrow> 'k \<Rightarrow> pyerror + 'v" where
  "getitem d k = (case map_of d k of None \<Rightarrow> Inl KeyError | Some v \<Rightarrow> Inr v)"

definition setitem :: "('k, 'v) pydict \<Rightarrow> 'k \<Rightarrow> 'v \<Rightarrow> ('k, 'v) pydict" where
  "setitem d k v = AList.update k v d"

definition keys :: "('k, 'v) pydict \<Rightarrow> 'k list" where
  "keys d = map fst d"

text \<open>
  A stream index is an integer when a caller passes it to \<^verbatim>\<open>add_reference\<close>, and a
  string once it has been a key of a JSON object. Python compares the two as different
  values (\<^verbatim>\<open>1 != '1'\<close>).
\<close>

datatype skey = SInt int | SStr string

text \<open>Truthiness of a stream index (\<^verbatim>\<open>if ref['stream']:\<close>): zero and the empty string are false.\<close>

fun truthy_key :: "skey \<Rightarrow> bool" where
  "truthy_key (SInt n) = (n \<noteq> 0)"
| "truthy_key (SStr s) = (s \<noteq> [])"

text \<open>Truthiness of an optional string: \<^verbatim>\<open>None\<close> and \<^verbatim>\<open>''\<close> are false.\<close>

fun truthy_str :: "string option \<Rightarrow> bool" where
  "truthy_str None = False"
| "truthy_str (Some s) = (s \<noteq> [])"

subsection \<open>Index entries and their JSON form\<close>

text \<open>
  The value stored for a path: \<^verbatim>\<open>dict(path_type=..., streams=dict(), md_ids=list())\<close>.
  In memory the keys of \<^verbatim>\<open>streams\<close> are Python values (\<^typ>\<open>skey\<close>); in the text of
  an index file they are JSON member names, that is strings, and nothing prevents a JSON
  object from repeating a member name.
\<close>

record 'k entry =
  path_type :: string
  streams :: "('k, string list) pydict"
  md_ids :: "string list"

text \<open>
  One line of an index file holds one JSON object with one member, the path, whose value is
  the entry. The line is represented by that member, the entry's \<^verbatim>\<open>streams\<close> object by
  its members in the order of the text.
\<close>

type_synonym line = "string \<times> string entry"

text \<open>Python's \<^verbatim>\<open>str\<close> on an integer, which \<^verbatim>\<open>json.dump\<close> applies to integer keys.\<close>

definition digit_char :: "nat \<Rightarrow> char" where
  "digit_char d = char_of (48 + d)"

fun str_nat :: "nat \<Rightarrow> string" where
  "str_nat n = (if n < 10 then [digit_char n] else str_nat (n div 10) @ [digit_char (n mod 10)])"

declare str_nat.simps [simp del]

definition str_int :: "int \<Rightarrow> string" where
  "str_int i = (if i < 0 then CHR ''-'' # str_nat (nat (- i)) else str_nat (nat i))"

fun key_str :: "skey \<Rightarrow> string" where
  "key_str (SInt n) = str_int n"
| "key_str (SStr s) = s"

text \<open>
  \<^verbatim>\<open>json.dump\<close> of an entry writes the members of \<^verbatim>\<open>streams\<close> in the order of the
  dictionary, each key as a string. \<^verbatim>\<open>json.loads\<close> builds a dictionary from the
  members in the order of the text, so a repeated member name keeps its first position and
  its last value.
\<close>

definition dump_entry :: "skey entry \<Rightarrow> string entry" where
  "dump_entry e =
     \<lparr>path_type = path_type e,
      streams = map (\<lambda>(k, v). (key_str k, v)) (streams e),
      md_ids = md_ids e\<rparr>"

definition dict_of_members :: "('k \<times> 'v) list \<Rightarrow> ('k, 'v) pydict" where
  "dict_of_members ms = fold (\<lambda>(k, v) d. setitem d k v) ms []"

definition load_entry :: "string entry \<Rightarrow> skey entry" where
  "load_entry j =
     \<lparr>path_type = path_type j,
      streams = dict_of_members (map (\<lambda>(k, v). (SStr k, v)) (streams j)),
      md_ids = md_ids j\<rparr>"

definition json_dump :: "string \<times> skey entry \<Rightarrow> line" where
  "json_dump p = (fst p, dump_entry (snd p))"

definition json_loads :: "line \<Rightarrow> string \<times> skey entry" where
  "json_loads l = (fst l, load_entry (snd l))"

subsection \<open>The workspace\<close>

text \<open>
  What \<^verbatim>\<open>write_md\<close> serializes: the metadata element wrapped in
  \<^verbatim>\<open>mets/amdSec/(techMD | digiprovMD)/mdWrap/xmlData\<close>.
\<close>

datatype amd_kind = Techmd | Digiprovmd

record 'e mets_doc =
  amd_kind :: amd_kind
  amd_id :: string
  wrap_mdtype :: string
  wrap_mdtypeversion :: string
  wrap_othermdtype :: "string option"
  xmldata :: 'e

text \<open>
  A file of the workspace is an index file (its lines), a metadata document, or the JSON
  dump of a file metadata dictionary. Reading a file of another kind as an index fails in
  \<^verbatim>\<open>json.loads\<close>, or in the look-ups on what it returns; the model reports that as
  \<^const>\<open>ValueError\<close>.
\<close>

type_synonym metadata_dict = "(string \<times> string) list"

datatype 'e wsfile = RefFile "line list" | MdFile "'e mets_doc" | DictFile metadata_dict

text \<open>What the code prints on standard output.\<close>

datatype 'e printed =
    WroteMd string string
  | PrintedDoc "'e mets_doc"
  | WroteDict string

record 'e world =
  files :: "string \<rightharpoonup> 'e wsfile"
  stdout :: "'e printed list"

text \<open>\<^verbatim>\<open>os.path.join\<close> of two components (\<^verbatim>\<open>posixpath\<close>).\<close>

definition os_path_join :: "string \<Rightarrow> string \<Rightarrow> string" where
  "os_path_join a b =
     (if b \<noteq> [] \<and> hd b = CHR ''/'' then b
      else if a = [] \<or> last a = CHR ''/'' then a @ b
      else a @ CHR ''/'' # b)"

subsection \<open>Reading and filtering the index\<close>

text \<open>
  \<^verbatim>\<open>read_md_references\<close>: \<^verbatim>\<open>None\<close> when the file is missing, else the dictionary
  obtained by \<^verbatim>\<open>references.update(json.loads(line))\<close> over the lines.
\<close>

definition read_md_references ::
  "'e world \<Rightarrow> string \<Rightarrow> string \<Rightarrow> pyerror + (string, skey entry) pydict option" where
  "read_md_references w workspace ref_file =
     (let reference_file = os_path_join workspace ref_file in
      case files w reference_file of
        None \<Rightarrow> Inr None
      | Some (RefFile ls) \<Rightarrow>
          Inr (Some (fold (\<lambda>l references. setitem references (fst (json_loads l)) (snd (json_loads l)))
                       ls []))
      | Some _ \<Rightarrow> Inl ValueError)"

text \<open>
  The unfiltered branch of \<^verbatim>\<open>get_md_references\<close>:
  \<^verbatim>\<open>for ref_path in refs_dict: md_ids.extend(refs_dict[ref_path]['md_ids'])\<close>.
  The keys are those of the dictionary itself, so no look-up of this loop fails (lemma
  \<open>extend_all_keys\<close> below).
\<close>

fun extend_all ::
  "(string, skey entry) pydict \<Rightarrow> string list \<Rightarrow> string list \<Rightarrow> pyerror + string list" where
  "extend_all refs_dict [] acc = Inr acc"
| "extend_all refs_dict (ref_path # rest) acc =
     (case getitem refs_dict ref_path of
        Inl e \<Rightarrow> Inl e
      | Inr ent \<Rightarrow> extend_all refs_dict rest (acc @ md_ids ent))"

text \<open>
  The stream branch:
  \<^verbatim>\<open>for ref_stream in md_ref['streams']: if ref_stream == stream: md_ids = md_ref['streams'][ref_stream]\<close>.
\<close>

fun select_stream ::
  "(skey, string list) pydict \<Rightarrow> skey list \<Rightarrow> skey \<Rightarrow> string list \<Rightarrow> pyerror + string list" where
  "select_stream d [] stream acc = Inr acc"
| "select_stream d (ref_stream # rest) stream acc =
     (if ref_stream = stream
      then (case getitem d ref_stream of
              Inl e \<Rightarrow> Inl e
            | Inr ids \<Rightarrow> select_stream d rest stream ids)
      else select_stream d rest stream acc)"

text \<open>
  The body of the \<^verbatim>\<open>try\<close> block of \<^verbatim>\<open>get_md_references\<close>. \<^verbatim>\<open>os.path.normpath\<close> is
  a parameter.
\<close>

definition md_ids_filtered ::
  "(string \<Rightarrow> string) \<Rightarrow> (string, skey entry) pydict \<Rightarrow> string option \<Rightarrow> skey option
     \<Rightarrow> string option \<Rightarrow> pyerror + string list" where
  "md_ids_filtered normpath refs_dict path stream directory =
     (if directory = None \<and> path = None \<and> stream = None
      then extend_all refs_dict (keys refs_dict) []
      else if truthy_str directory
      then (case getitem refs_dict (normpath (the directory)) of
              Inl e \<Rightarrow> Inl e
            | Inr ent \<Rightarrow> Inr (md_ids ent))
      else (case stream of
              None \<Rightarrow>
                (case path of
                   None \<Rightarrow> Inl KeyError
                 | Some p \<Rightarrow>
                     (case getitem refs_dict p of
                        Inl e \<Rightarrow> Inl e
                      | Inr ent \<Rightarrow> Inr (md_ids ent)))
            | Some s \<Rightarrow>
                (case path of
                   None \<Rightarrow> Inl KeyError
                 | Some p \<Rightarrow>
                     (case getitem refs_dict p of
                        Inl e \<Rightarrow> Inl e
                      | Inr md_ref \<Rightarrow> select_stream (streams md_ref) (keys (streams md_ref)) s []))))"

text \<open>
  \<^verbatim>\<open>get_md_references\<close>: \<^verbatim>\<open>None\<close> for \<^verbatim>\<open>None\<close>; a \<^verbatim>\<open>KeyError\<close> of the body is
  caught and leaves the empty list; any other exception would propagate.
\<close>

definition get_md_references ::
  "(string \<Rightarrow> string) \<Rightarrow> (string, skey entry) pydict option \<Rightarrow> string option \<Rightarrow> skey option
     \<Rightarrow> string option \<Rightarrow> pyerror + string set option" where
  "get_md_references normpath refs_dict path stream directory =
     (case refs_dict of
        None \<Rightarrow> Inr None
      | Some refs \<Rightarrow>
          (case md_ids_filtered normpath refs path stream directory of
             Inl KeyError \<Rightarrow> Inr (Some {})
           | Inl e \<Rightarrow> Inl e
           | Inr ids \<Rightarrow> Inr (Some (set ids))))"

subsection \<open>The section creator\<close>

text \<open>
  An element of \<^verbatim>\<open>self.references\<close>: the dictionary that \<^verbatim>\<open>add_reference\<close> builds,
  with its keys \<^verbatim>\<open>md_id\<close>, \<^verbatim>\<open>stream\<close>, \<^verbatim>\<open>path\<close> and \<^verbatim>\<open>path_type\<close>.
  Paths are text strings or \<^verbatim>\<open>None\<close>.
\<close>

record reference =
  ref_md_id :: string
  ref_stream :: "skey option"
  ref_path :: "string option"
  ref_path_type :: string

text \<open>
  An element of \<^verbatim>\<open>self.md_elements\<close>:
  \<^verbatim>\<open>(metadata, filename, stream, directory, given_metadata_dict)\<close>.
\<close>

type_synonym 'e md_element =
  "'e \<times> string option \<times> skey option \<times> string option \<times> metadata_dict option"

record 'e creator =
  workspace :: string
  md_elements :: "'e md_element list"
  references :: "reference list"

text \<open>\<^verbatim>\<open>__init__\<close>.\<close>

definition MetsSectionCreator :: "string \<Rightarrow> 'e creator" where
  "MetsSectionCreator ws = \<lparr>workspace = ws, md_elements = [], references = []\<rparr>"

definition add_reference ::
  "'e creator \<Rightarrow> string \<Rightarrow> string option \<Rightarrow> skey option \<Rightarrow> string option \<Rightarrow> 'e creator" where
  "add_reference c md_id filepath stream directory =
     c\<lparr>references := references c @
         [\<lparr>ref_md_id = md_id,
           ref_stream = stream,
           ref_path = (if truthy_str directory then directory else filepath),
           ref_path_type = (if truthy_str directory then ''directory'' else ''file'')\<rparr>]\<rparr>"

definition add_md ::
  "'e creator \<Rightarrow> 'e \<Rightarrow> string option \<Rightarrow> skey option \<Rightarrow> string option
     \<Rightarrow> metadata_dict option \<Rightarrow> 'e creator" where
  "add_md c metadata filename stream directory given_metadata_dict =
     c\<lparr>md_elements := md_elements c @
         [(metadata, filename, stream, directory, given_metadata_dict)]\<rparr>"

subsection \<open>Writing the index\<close>

text \<open>\<^verbatim>\<open>_parse_refs\<close> on a text string or \<^verbatim>\<open>None\<close>.\<close>

definition parse_refs :: "string option \<Rightarrow> string" where
  "parse_refs ref = (case ref of Some s \<Rightarrow> s | None \<Rightarrow> [])"

text \<open>
  \<^verbatim>\<open>_uniques_list\<close>: \<^verbatim>\<open>set_list = set(reference_list); set_list.add(reference);
  return list(set_list)\<close>. Python does not fix the order in which \<^verbatim>\<open>list\<close> enumerates
  a set, so the enumeration is a parameter; \<open>set_lister\<close> says what every such
  enumeration satisfies.
\<close>

definition uniques_list ::
  "(string set \<Rightarrow> string list) \<Rightarrow> string list \<Rightarrow> string \<Rightarrow> string list" where
  "uniques_list list_of_set reference_list reference =
     list_of_set (insert reference (set reference_list))"

definition set_lister :: "(string set \<Rightarrow> string list) \<Rightarrow> bool" where
  "set_lister list_of_set \<longleftrightarrow>
     (\<forall>S. finite S \<longrightarrow> set (list_of_set S) = S \<and> distinct (list_of_set S))"

text \<open>\<^verbatim>\<open>_setup_new_path\<close>.\<close>

definition setup_new_path :: "string \<Rightarrow> skey entry" where
  "setup_new_path ptype = \<lparr>path_type = ptype, streams = [], md_ids = []\<rparr>"

text \<open>
  \<^verbatim>\<open>_get_path_from_reference_file\<close>: the entry of the first line whose object has the
  key, \<^verbatim>\<open>None\<close> when no line has it.
\<close>

fun scan_lines :: "line list \<Rightarrow> string \<Rightarrow> pyerror + skey entry option" where
  "scan_lines [] rp = Inr None"
| "scan_lines (l # ls) rp =
     (case getitem [json_loads l] rp of
        Inr e \<Rightarrow> Inr (Some e)
      | Inl KeyError \<Rightarrow> scan_lines ls rp
      | Inl e \<Rightarrow> Inl e)"

definition get_path_from_reference_file ::
  "'e world \<Rightarrow> string \<Rightarrow> string \<Rightarrow> pyerror + skey entry option" where
  "get_path_from_reference_file w reference_file rp =
     (case files w reference_file of
        None \<Rightarrow> Inl IOError
      | Some (RefFile ls) \<Rightarrow> scan_lines ls rp
      | Some _ \<Rightarrow> Inl ValueError)"

text \<open>
  The local variables of the loop of \<^verbatim>\<open>write_references\<close>. Each element of
  \<^verbatim>\<open>paths\<close> is a dictionary with one key, \<^verbatim>\<open>{ref_path: path}\<close>.
\<close>

record wr_state =
  paths :: "(string \<times> skey entry) list"
  path_map :: "string \<rightharpoonup> nat"
  paths_updated :: "string set"

text \<open>\<^verbatim>\<open>paths[path_map[ref_path]][ref_path]\<close>.\<close>

definition current_path :: "wr_state \<Rightarrow> string \<Rightarrow> pyerror + skey entry" where
  "current_path st rp =
     (case path_map st rp of
        None \<Rightarrow> Inl KeyError
      | Some i \<Rightarrow>
          if i < length (paths st) then getitem [paths st ! i] rp else Inl IndexError)"

text \<open>
  The \<^verbatim>\<open>try\<close> / \<^verbatim>\<open>except KeyError\<close> of the loop body: on a miss the entry is
  looked for in the file (when the file existed at the start), else set up new, and
  appended to \<^verbatim>\<open>paths\<close>.
\<close>

definition find_or_create ::
  "bool \<Rightarrow> 'e world \<Rightarrow> string \<Rightarrow> wr_state \<Rightarrow> reference \<Rightarrow> pyerror + wr_state" where
  "find_or_create file_exists w reference_file st ref =
     (let rp = parse_refs (ref_path ref) in
      case current_path st rp of
        Inr path \<Rightarrow> Inr st
      | Inl KeyError \<Rightarrow>
          (case (if file_exists then get_path_from_reference_file w reference_file rp
                 else Inr None) of
             Inl e \<Rightarrow> Inl e
           | Inr found \<Rightarrow>
               Inr \<lparr>paths = paths st @
                       [(rp, case found of
                               None \<Rightarrow> setup_new_path (ref_path_type ref)
                             | Some path \<Rightarrow> path)],
                    path_map = (path_map st)(rp \<mapsto> length (paths st)),
                    paths_updated =
                      (if found \<noteq> None then insert rp (paths_updated st)
                       else paths_updated st)\<rparr>)
      | Inl e \<Rightarrow> Inl e)"

text \<open>
  The second half of the loop body, on the entry \<^verbatim>\<open>path\<close>: a reference with a true
  \<^verbatim>\<open>stream\<close> goes to the list of that stream (a new list when the look-up raises
  \<^verbatim>\<open>KeyError\<close>, the only exception it can raise), any other one to \<^verbatim>\<open>md_ids\<close>.
\<close>

definition record_md_id ::
  "(string set \<Rightarrow> string list) \<Rightarrow> reference \<Rightarrow> skey entry \<Rightarrow> skey entry" where
  "record_md_id list_of_set ref path =
     (case ref_stream ref of
        None \<Rightarrow> path\<lparr>md_ids := uniques_list list_of_set (md_ids path) (ref_md_id ref)\<rparr>
      | Some s \<Rightarrow>
          if truthy_key s
          then path\<lparr>streams := setitem (streams path) s
                 (case getitem (streams path) s of
                    Inr ids \<Rightarrow> uniques_list list_of_set ids (ref_md_id ref)
                  | Inl e \<Rightarrow> [ref_md_id ref])\<rparr>
          else path\<lparr>md_ids := uniques_list list_of_set (md_ids path) (ref_md_id ref)\<rparr>)"

text \<open>
  One iteration of \<^verbatim>\<open>for ref in self.references\<close>. The entry that is changed is the
  object \<^verbatim>\<open>paths[path_map[ref_path]][ref_path]\<close>, which \<^verbatim>\<open>path\<close> is an alias of.
\<close>

definition reference_step ::
  "(string set \<Rightarrow> string list) \<Rightarrow> bool \<Rightarrow> 'e world \<Rightarrow> string \<Rightarrow> wr_state \<Rightarrow> reference
     \<Rightarrow> pyerror + wr_state" where
  "reference_step list_of_set file_exists w reference_file st ref =
     (let rp = parse_refs (ref_path ref) in
      case find_or_create file_exists w reference_file st ref of
        Inl e \<Rightarrow> Inl e
      | Inr st1 \<Rightarrow>
          (case current_path st1 rp of
             Inl e \<Rightarrow> Inl e
           | Inr path \<Rightarrow>
               Inr (st1\<lparr>paths := (paths st1)[the (path_map st1 rp) :=
                                      (rp, record_md_id list_of_set ref path)]\<rparr>)))"

fun collect_paths ::
  "(string set \<Rightarrow> string list) \<Rightarrow> bool \<Rightarrow> 'e world \<Rightarrow> string \<Rightarrow> reference list \<Rightarrow> wr_state
     \<Rightarrow> pyerror + wr_state" where
  "collect_paths list_of_set file_exists w reference_file [] st = Inr st"
| "collect_paths list_of_set file_exists w reference_file (ref # refs) st =
     (case reference_step list_of_set file_exists w reference_file st ref of
        Inl e \<Rightarrow> Inl e
      | Inr st' \<Rightarrow> collect_paths list_of_set file_exists w reference_file refs st')"

text \<open>
  \<^verbatim>\<open>open(name, 'at')\<close> followed by writes: the file is created when missing, the
  lines go after what it holds.
\<close>

definition append_lines :: "'e world \<Rightarrow> string \<Rightarrow> line list \<Rightarrow> pyerror + 'e world" where
  "append_lines w name ls =
     (case files w name of
        None \<Rightarrow> Inr (w\<lparr>files := (files w)(name \<mapsto> RefFile ls)\<rparr>)
      | Some (RefFile old) \<Rightarrow> Inr (w\<lparr>files := (files w)(name \<mapsto> RefFile (old @ ls))\<rparr>)
      | Some _ \<Rightarrow> Inl ValueError)"

text \<open>
  \<^verbatim>\<open>for path in paths: with open(name, 'at') as out_file: json.dump(path, out_file);
  out_file.write('\n')\<close>.
\<close>

fun dump_paths ::
  "'e world \<Rightarrow> string \<Rightarrow> (string \<times> skey entry) list \<Rightarrow> pyerror + 'e world" where
  "dump_paths w name [] = Inr w"
| "dump_paths w name (path # rest) =
     (case append_lines w name [json_dump path] of
        Inl e \<Rightarrow> Inl e
      | Inr w' \<Rightarrow> dump_paths w' name rest)"

text \<open>\<^verbatim>\<open>if os.path.exists(tmp): os.rename(tmp, reference_file)\<close>.\<close>

definition rename_if_exists :: "'e world \<Rightarrow> string \<Rightarrow> string \<Rightarrow> 'e world" where
  "rename_if_exists w tmp reference_file =
     (case files w tmp of
        None \<Rightarrow> w
      | Some f \<Rightarrow> w\<lparr>files := ((files w)(reference_file \<mapsto> f))(tmp := None)\<rparr>)"

definition write_references ::
  "(string set \<Rightarrow> string list) \<Rightarrow> 'e creator \<Rightarrow> string \<Rightarrow> 'e world \<Rightarrow> pyerror + 'e world" where
  "write_references list_of_set c ref_file w =
     (let reference_file = os_path_join (workspace c) ref_file;
          tmp = reference_file @ ''.tmp'';
          file_exists = (files w reference_file \<noteq> None)
      in case collect_paths list_of_set file_exists w reference_file (references c)
                \<lparr>paths = [], path_map = Map.empty, paths_updated = {}\<rparr> of
           Inl e \<Rightarrow> Inl e
         | Inr st \<Rightarrow>
             (case (if paths_updated st \<noteq> {}
                    then (case files w reference_file of
                            None \<Rightarrow> Inl IOError
                          | Some (RefFile in_file) \<Rightarrow>
                              (case append_lines w tmp
                                      [l \<leftarrow> in_file. fst (json_loads l) \<notin> paths_updated st] of
                                 Inl e \<Rightarrow> Inl e
                               | Inr w1 \<Rightarrow> dump_paths w1 tmp (paths st))
                          | Some _ \<Rightarrow> Inl ValueError)
                    else dump_paths w reference_file (paths st)) of
                Inl e \<Rightarrow> Inl e
              | Inr w2 \<Rightarrow> Inr (rename_if_exists w2 tmp reference_file)))"

subsection \<open>Writing metadata files\<close>

text \<open>
  \<^verbatim>\<open>write_md\<close>. \<^verbatim>\<open>generate_digest\<close> and \<^verbatim>\<open>encode_path\<close> of
  \<^verbatim>\<open>siptools.utils\<close> are parameters. The result is the pair \<^verbatim>\<open>(md_id, filename)\<close> and
  the workspace after the call.
\<close>

definition write_md ::
  "('e \<Rightarrow> string) \<Rightarrow> (string \<Rightarrow> string) \<Rightarrow> 'e creator \<Rightarrow> 'e \<Rightarrow> string \<Rightarrow> string
     \<Rightarrow> string option \<Rightarrow> string option \<Rightarrow> bool \<Rightarrow> 'e world \<Rightarrow> (string \<times> string) \<times> 'e world" where
  "write_md generate_digest encode_path c metadata mdtype mdtypeversion othermdtype section
       to_stdout w =
     (let digest = generate_digest metadata;
          suffix = (if truthy_str othermdtype then the othermdtype else mdtype);
          md_id = ''_'' @ digest;
          filename = os_path_join (workspace c)
                       (encode_path (digest @ ''-'' @ suffix @ ''-amd.xml''))
      in if files w filename = None
         then (let mets = \<lparr>amd_kind = (if section = Some ''digiprovmd'' then Digiprovmd
                                         else Techmd),
                           amd_id = md_id,
                           wrap_mdtype = mdtype,
                           wrap_mdtypeversion = mdtypeversion,
                           wrap_othermdtype = othermdtype,
                           xmldata = metadata\<rparr>
               in ((md_id, filename),
                   w\<lparr>files := (files w)(filename \<mapsto> MdFile mets),
                     stdout := stdout w @ (if to_stdout then [PrintedDoc mets] else [])
                                 @ [WroteMd mdtype filename]\<rparr>))
         else ((md_id, filename), w))"





subsection \<open>The digest\<close>

text \<open>
  Modelled from the spec: the metadata element that \<^verbatim>\<open>generate_digest\<close> of
  \<^verbatim>\<open>siptools.utils\<close> (not among the sources) hashes. Section 4.1 names its logical
  content: the tag name, the attributes, the text, and the children, recursively.
\<close>

datatype element =
  Element (tag: string) (attrib: "(string \<times> string) list") (elem_text: string)
    (children: "element list")

text \<open>
  Modelled from the spec: the canonical form behind ``a cryptographic hash over a canonical
  serialization'' that is ``order-independent'' in the attributes: the attributes of every
  element are sorted, everything else is kept.
\<close>

fun canonical :: "element \<Rightarrow> element" where
  "canonical (Element t a x cs) = Element t (sort a) x (map canonical cs)"

text \<open>
  Modelled from the spec: \<^verbatim>\<open>generate_digest\<close>, missing from the sources, as the hash of
  the canonical form. The cryptographic hash, together with the serialization it is applied
  to, is the parameter \<open>hash\<close>.
\<close>

definition generate_digest :: "(element \<Rightarrow> 'd) \<Rightarrow> element \<Rightarrow> 'd" where
  "generate_digest hash e = hash (canonical e)"


subsection \<open>What the specification says of the unfiltered call\<close>

text \<open>
  The specification's reading of the call without filters: the union of the
  \<^verbatim>\<open>md_ids\<close> over the entries whose \<^verbatim>\<open>path_type\<close> is \<^verbatim>\<open>file\<close>.
\<close>

definition spec_file_md_ids :: "(string, skey entry) pydict \<Rightarrow> string set" where
  "spec_file_md_ids refs =
     (\<Union>e \<in> {e \<in> ran (map_of refs). path_type e = ''file''}. set (md_ids e))"

subsection \<open>Notions used to state the properties of the write path\<close>

text \<open>
  The loop keeps \<^verbatim>\<open>path_map\<close> and \<^verbatim>\<open>paths\<close> in step: the keys of \<^verbatim>\<open>paths\<close>
  are distinct and \<^verbatim>\<open>path_map\<close> gives the position of each.
\<close>

definition wf_state :: "wr_state \<Rightarrow> bool" where
  "wf_state st \<longleftrightarrow>
     distinct (map fst (paths st)) \<and>
     (\<forall>k i. path_map st k = Some i \<longleftrightarrow> i < length (paths st) \<and> fst (paths st ! i) = k)"

text \<open>
  The file at a name is an index file or is missing; its lines (none when missing); the
  entry that \<^verbatim>\<open>_get_path_from_reference_file\<close> finds in it for a path.
\<close>

definition disk_entry :: "'e world \<Rightarrow> string \<Rightarrow> string \<Rightarrow> skey entry option" where
  "disk_entry w f p = (case files w f of Some (RefFile ls) \<Rightarrow> map_option load_entry (map_of ls p) | _ \<Rightarrow> None)"

definition index_ok :: "'e world \<Rightarrow> string \<Rightarrow> bool" where
  "index_ok w f \<longleftrightarrow> (case files w f of None \<Rightarrow> True | Some (RefFile ls) \<Rightarrow> True | Some _ \<Rightarrow> False)"

definition index_lines :: "'e world \<Rightarrow> string \<Rightarrow> line list" where
  "index_lines w f = (case files w f of Some (RefFile ls) \<Rightarrow> ls | _ \<Rightarrow> [])"

text \<open>
  The entry a reference starts from when its path is met for the first time in a batch,
  the references of a batch for one path, the paths a batch refers to, and the entry that
  the loop ends with for a path: the references for the path folded over the entry it
  started from.
\<close>

definition start_entry :: "'e world \<Rightarrow> string \<Rightarrow> reference \<Rightarrow> skey entry" where
  "start_entry w f r =
     (case disk_entry w f (parse_refs (ref_path r)) of
        None \<Rightarrow> setup_new_path (ref_path_type r) | Some e \<Rightarrow> e)"

definition refs_of :: "string \<Rightarrow> reference list \<Rightarrow> reference list" where
  "refs_of p refs = [r \<leftarrow> refs. parse_refs (ref_path r) = p]"

definition touched :: "reference list \<Rightarrow> string set" where
  "touched refs = (\<lambda>r. parse_refs (ref_path r)) ` set refs"

definition entry_from ::
  "(string set \<Rightarrow> string list) \<Rightarrow> 'e world \<Rightarrow> string \<Rightarrow> reference list \<Rightarrow> skey entry option
     \<Rightarrow> skey entry option" where
  "entry_from L w f rs e0 =
     (case rs of
        [] \<Rightarrow> e0
      | r # _ \<Rightarrow> Some (fold (record_md_id L) rs (case e0 of Some e \<Rightarrow> e | None \<Rightarrow> start_entry w f r)))"

text \<open>
  A reference has a stream when \<^verbatim>\<open>if ref['stream']:\<close> holds for it. An entry has no
  duplicates when \<^verbatim>\<open>md_ids\<close> and the ID list of every stream are duplicate-free. The
  IDs an entry holds for a stream.
\<close>

definition has_stream :: "reference \<Rightarrow> bool" where
  "has_stream r = (case ref_stream r of None \<Rightarrow> False | Some s \<Rightarrow> truthy_key s)"





section \<open>Properties of the read path\<close>

lemma getitem_simps:
  "map_of d k = None \<Longrightarrow> getitem d k = Inl KeyError"
  "map_of d k = Some v \<Longrightarrow> getitem d k = Inr v"
  by (simp_all add: getitem_def)

lemma extend_all_keys:
  "set ks \<subseteq> fst ` set refs \<Longrightarrow>
   extend_all refs ks acc = Inr (acc @ concat (map (\<lambda>k. md_ids (the (map_of refs k))) ks))"
proof (induction ks arbitrary: acc)
  case Nil
  then show ?case by simp
next
  case (Cons k ks)
  from Cons.prems have "k \<in> fst ` set refs" by simp
  then obtain e where e: "map_of refs k = Some e"
    by (metis domD dom_map_of_conv_image_fst)
  with Cons show ?case by (simp add: getitem_simps)
qed

lemma extend_all_no_other_error:
  "extend_all refs ks acc = Inl err \<Longrightarrow> err = KeyError"
  by (induction ks arbitrary: acc) (auto simp: getitem_def split: option.splits sum.splits)

lemma select_stream_keys:
  "set ks \<subseteq> fst ` set d \<Longrightarrow>
   select_stream d ks s acc = Inr (if s \<in> set ks then the (map_of d s) else acc)"
proof (induction ks arbitrary: acc)
  case Nil
  then show ?case by simp
next
  case (Cons k ks)
  from Cons.prems have "k \<in> fst ` set d" by simp
  then obtain v where v: "map_of d k = Some v"
    by (metis domD dom_map_of_conv_image_fst)
  with Cons show ?case by (auto simp: getitem_simps)
qed

lemma select_stream_dict:
  "select_stream d (keys d) s [] = Inr (case map_of d s of None \<Rightarrow> [] | Some ids \<Rightarrow> ids)"
proof -
  have "select_stream d (keys d) s [] = Inr (if s \<in> set (keys d) then the (map_of d s) else [])"
    by (rule select_stream_keys) (simp add: keys_def)
  moreover have "s \<in> set (keys d) \<longleftrightarrow> map_of d s \<noteq> None"
    by (simp add: keys_def map_of_eq_None_iff)
  ultimately show ?thesis by (auto split: option.splits)
qed

lemma md_ids_filtered_no_other_error:
  "md_ids_filtered normpath refs path stream directory = Inl err \<Longrightarrow> err = KeyError"
  by (auto simp: md_ids_filtered_def getitem_def select_stream_dict
      dest: extend_all_no_other_error split: if_splits option.splits sum.splits)

text \<open>
  Claim C7, as amended. Without a path, stream or directory filter, \<^const>\<open>get_md_references\<close>
  returns the union of the \<^verbatim>\<open>md_ids\<close> of every entry of the mapping, whatever its
  \<^verbatim>\<open>path_type\<close>: directory entries are included.
\<close>

theorem get_md_references_unfiltered:
  "get_md_references normpath (Some refs) None None None
     = Inr (Some (\<Union>e \<in> ran (map_of refs). set (md_ids e)))"
proof -
  have "extend_all refs (keys refs) []
          = Inr ([] @ concat (map (\<lambda>k. md_ids (the (map_of refs k))) (keys refs)))"
    by (rule extend_all_keys) (simp add: keys_def)
  moreover have "(\<Union>k \<in> fst ` set refs. set (md_ids (the (map_of refs k))))
                   = (\<Union>e \<in> ran (map_of refs). set (md_ids e))" (is "?L = ?R")
  proof
    show "?L \<subseteq> ?R"
    proof
      fix x assume "x \<in> ?L"
      then obtain k where k: "k \<in> fst ` set refs" and x: "x \<in> set (md_ids (the (map_of refs k)))"
        by blast
      from k obtain e where e: "map_of refs k = Some e"
        by (metis domD dom_map_of_conv_image_fst)
      then have "e \<in> ran (map_of refs)" by (rule ranI)
      with x e show "x \<in> ?R" by auto
    qed
    show "?R \<subseteq> ?L"
    proof
      fix x assume "x \<in> ?R"
      then obtain e where e: "e \<in> ran (map_of refs)" and x: "x \<in> set (md_ids e)" by blast
      from e obtain k where k: "map_of refs k = Some e" by (auto simp: ran_def)
      then have "k \<in> fst ` set refs" by (metis domI dom_map_of_conv_image_fst)
      with k x show "x \<in> ?L" by force
    qed
  qed
  ultimately show ?thesis
    by (simp add: get_md_references_def md_ids_filtered_def keys_def)
qed

text \<open>
  Claim C7 as stated fails: for an index holding one directory entry with the ID \<^verbatim>\<open>_a\<close>
  the unfiltered call returns \<^verbatim>\<open>{'_a'}\<close>, not the union over the file-type paths
  (which is empty).
\<close>

theorem get_md_references_unfiltered_cex:
  "get_md_references id
     (Some [(''data'', \<lparr>path_type = ''directory'', streams = [], md_ids = [''_a'']\<rparr>)])
     None None None
   \<noteq> Inr (Some (spec_file_md_ids
        [(''data'', \<lparr>path_type = ''directory'', streams = [], md_ids = [''_a'']\<rparr>)]))"
  by (simp add: get_md_references_def md_ids_filtered_def keys_def getitem_def spec_file_md_ids_def)


text \<open>
  Claim C9. A look-up that misses yields the empty set: a directory that has no entry, a
  path that has no entry (with or without a stream), a stream that the path's entry does
  not have. No call on a dictionary raises.
\<close>

theorem get_md_references_miss:
  "(truthy_str directory \<longrightarrow> map_of refs (normpath (the directory)) = None \<longrightarrow>
      get_md_references normpath (Some refs) path stream directory = Inr (Some {}))
   \<and> (\<not> truthy_str directory \<longrightarrow> \<not> (directory = None \<and> path = None \<and> stream = None) \<longrightarrow>
      (\<forall>p. path = Some p \<longrightarrow> map_of refs p = None) \<longrightarrow>
      get_md_references normpath (Some refs) path stream directory = Inr (Some {}))
   \<and> (\<not> truthy_str directory \<longrightarrow> path = Some p \<longrightarrow> stream = Some s \<longrightarrow>
      map_of refs p = Some e \<longrightarrow> map_of (streams e) s = None \<longrightarrow>
      get_md_references normpath (Some refs) path stream directory = Inr (Some {}))
   \<and> (\<forall>err. get_md_references normpath (Some refs) path stream directory \<noteq> Inl err)"
proof (intro conjI impI allI)
  assume "truthy_str directory" "map_of refs (normpath (the directory)) = None"
  then show "get_md_references normpath (Some refs) path stream directory = Inr (Some {})"
    by (cases directory) (auto simp: get_md_references_def md_ids_filtered_def getitem_simps)
next
  assume "\<not> truthy_str directory" "\<not> (directory = None \<and> path = None \<and> stream = None)"
    "\<forall>p. path = Some p \<longrightarrow> map_of refs p = None"
  then show "get_md_references normpath (Some refs) path stream directory = Inr (Some {})"
    by (cases path; cases stream)
       (auto simp: get_md_references_def md_ids_filtered_def getitem_simps)
next
  assume "\<not> truthy_str directory" "path = Some p" "stream = Some s"
    "map_of refs p = Some e" "map_of (streams e) s = None"
  then show "get_md_references normpath (Some refs) path stream directory = Inr (Some {})"
    by (simp add: get_md_references_def md_ids_filtered_def getitem_simps select_stream_dict)
next
  fix err
  show "get_md_references normpath (Some refs) path stream directory \<noteq> Inl err"
    by (auto simp: get_md_references_def split: sum.splits pyerror.splits
        dest: md_ids_filtered_no_other_error)
qed

text \<open>
  Claim C10. When the index file does not exist, \<^const>\<open>read_md_references\<close> returns
  \<^verbatim>\<open>None\<close>, and \<^const>\<open>get_md_references\<close> on \<^verbatim>\<open>None\<close> returns
  \<^verbatim>\<open>None\<close>, which is not the empty set.
\<close>

theorem missing_index_is_None:
  "files w (os_path_join ws ref_file) = None \<Longrightarrow>
   read_md_references w ws ref_file = Inr None
   \<and> get_md_references normpath None path stream directory = Inr None
   \<and> get_md_references normpath None path stream directory \<noteq> Inr (Some {})"
  by (simp add: read_md_references_def get_md_references_def)

theorem get_md_references_unfiltered_witness:
  "get_md_references id
     (Some [(''data/a.tif'', \<lparr>path_type = ''file'', streams = [], md_ids = [''_a'', ''_b'']\<rparr>),
            (''data'', \<lparr>path_type = ''directory'', streams = [], md_ids = [''_c'']\<rparr>)])
     None None None
   = Inr (Some {''_a'', ''_b'', ''_c''})"
  using get_md_references_unfiltered [of id
      "[(''data/a.tif'', \<lparr>path_type = ''file'', streams = [], md_ids = [''_a'', ''_b'']\<rparr>),
        (''data'', \<lparr>path_type = ''directory'', streams = [], md_ids = [''_c'']\<rparr>)]"]
  by (simp add: ran_distinct insert_commute)


theorem get_md_references_miss_witness:
  "truthy_str (Some ''data'')
   \<and> map_of [(''data/a.tif'', \<lparr>path_type = ''file'', streams = [], md_ids = [''_x'']\<rparr>)]
        (id (the (Some ''data''))) = None
   \<and> get_md_references id
        (Some [(''data/a.tif'', \<lparr>path_type = ''file'', streams = [], md_ids = [''_x'']\<rparr>)])
        None None (Some ''data'') = Inr (Some {})
   \<and> get_md_references id
        (Some [(''data/a.tif'', \<lparr>path_type = ''file'', streams = [], md_ids = [''_x'']\<rparr>)])
        (Some ''data/b.tif'') None None = Inr (Some {})
   \<and> get_md_references id
        (Some [(''data/a.tif'', \<lparr>path_type = ''file'', streams = [], md_ids = [''_x'']\<rparr>)])
        (Some ''data/a.tif'') (Some (SInt 1)) None = Inr (Some {})"
  using get_md_references_miss [of "Some ''data''"
      "[(''data/a.tif'', \<lparr>path_type = ''file'', streams = [], md_ids = [''_x'']\<rparr>)]"
      id None None]
    get_md_references_miss [of None
      "[(''data/a.tif'', \<lparr>path_type = ''file'', streams = [], md_ids = [''_x'']\<rparr>)]"
      id "Some ''data/b.tif''" None]
    get_md_references_miss [of None
      "[(''data/a.tif'', \<lparr>path_type = ''file'', streams = [], md_ids = [''_x'']\<rparr>)]"
      id "Some ''data/a.tif''" "Some (SInt 1)" "''data/a.tif''" "SInt 1"
      "\<lparr>path_type = ''file'', streams = [], md_ids = [''_x'']\<rparr>"]
  by simp

theorem missing_index_is_None_witness:
  "files (\<lparr>files = Map.empty, stdout = []\<rparr> :: unit world)
       (os_path_join ''ws'' ''md-references.json'') = None
   \<and> read_md_references (\<lparr>files = Map.empty, stdout = []\<rparr> :: unit world)
         ''ws'' ''md-references.json'' = Inr None
   \<and> get_md_references id None (Some ''data/a.tif'') None None = Inr None"
  using missing_index_is_None [of "\<lparr>files = Map.empty, stdout = []\<rparr> :: unit world" "''ws''"
      "''md-references.json''" id "Some ''data/a.tif''" None None]
  by simp


section \<open>Properties of the write path\<close>

lemma scan_lines_eq: "scan_lines ls p = Inr (map_option load_entry (map_of ls p))"
  by (induction ls) (auto simp: getitem_def json_loads_def)

lemma map_of_nth:
  "distinct (map fst xs) \<Longrightarrow> i < length xs \<Longrightarrow> map_of xs (fst (xs ! i)) = Some (snd (xs ! i))"
  by (simp add: map_of_eq_Some_iff)

lemma map_of_list_update:
  "distinct (map fst xs) \<Longrightarrow> i < length xs \<Longrightarrow> fst (xs ! i) = k \<Longrightarrow>
   map_of (xs[i := (k, v)]) p = (if p = k then Some v else map_of xs p)"
proof (induction xs arbitrary: i)
  case Nil
  then show ?case by simp
next
  case (Cons x xs)
  show ?case
  proof (cases i)
    case 0
    with Cons.prems show ?thesis by (cases x) auto
  next
    case (Suc j)
    with Cons.prems have j: "j < length xs" "fst (xs ! j) = k" "distinct (map fst xs)" by auto
    then have "k \<in> fst ` set xs" by (metis imageI nth_mem)
    with Cons.prems(1) have "fst x \<noteq> k" by auto
    with Suc Cons.IH [OF j(3) j(1) j(2)] show ?thesis by (cases x) auto
  qed
qed

lemma map_fst_list_update:
  "i < length xs \<Longrightarrow> fst (xs ! i) = k \<Longrightarrow> map fst (xs[i := (k, v)]) = map fst xs"
  by (simp add: map_update list_update_same_conv)

lemma current_path_wf:
  assumes "wf_state st"
  shows "current_path st k = getitem (paths st) k"
proof (cases "path_map st k")
  case None
  have "k \<notin> fst ` set (paths st)"
  proof
    assume "k \<in> fst ` set (paths st)"
    then obtain i where "i < length (paths st)" "fst (paths st ! i) = k"
      by (auto simp: in_set_conv_nth)
    with assms have "path_map st k = Some i" by (simp add: wf_state_def)
    with None show False by simp
  qed
  then have "map_of (paths st) k = None" by (simp add: map_of_eq_None_iff)
  with None show ?thesis by (simp add: current_path_def getitem_def)
next
  case (Some i)
  with assms have i: "i < length (paths st)" "fst (paths st ! i) = k" and d: "distinct (map fst (paths st))"
    by (auto simp: wf_state_def)
  from map_of_nth [OF d i(1)] i(2) have "map_of (paths st) k = Some (snd (paths st ! i))" by simp
  with Some i show ?thesis by (cases "paths st ! i") (auto simp: current_path_def getitem_def)
qed

lemma wf_state_init: "wf_state \<lparr>paths = [], path_map = Map.empty, paths_updated = {}\<rparr>"
  by (simp add: wf_state_def)

lemma lookup_on_disk:
  "index_ok w f \<Longrightarrow>
   (if files w f \<noteq> None then get_path_from_reference_file w f p else Inr None)
     = Inr (disk_entry w f p)"
  by (auto simp: index_ok_def get_path_from_reference_file_def disk_entry_def scan_lines_eq
      split: option.splits wsfile.splits)

lemma find_or_create_wf:
  assumes "wf_state st" "index_ok w f"
  shows "find_or_create (files w f \<noteq> None) w f st r =
     Inr (case map_of (paths st) (parse_refs (ref_path r)) of
            Some e \<Rightarrow> st
          | None \<Rightarrow> \<lparr>paths = paths st @ [(parse_refs (ref_path r), start_entry w f r)],
                      path_map = (path_map st)(parse_refs (ref_path r) \<mapsto> length (paths st)),
                      paths_updated = (if disk_entry w f (parse_refs (ref_path r)) \<noteq> None
                           then insert (parse_refs (ref_path r)) (paths_updated st)
                           else paths_updated st)\<rparr>)"
  using lookup_on_disk [OF assms(2), of "parse_refs (ref_path r)"]
  by (auto simp: find_or_create_def Let_def current_path_wf [OF assms(1)] getitem_def start_entry_def
      split: option.splits)

lemma wf_state_append:
  assumes "wf_state st" "map_of (paths st) k = None"
  shows "wf_state \<lparr>paths = paths st @ [(k, e)], path_map = (path_map st)(k \<mapsto> length (paths st)),
                   paths_updated = u\<rparr>"
proof -
  from assms(2) have k: "k \<notin> fst ` set (paths st)" by (simp add: map_of_eq_None_iff)
  have "\<And>i. i < length (paths st) \<Longrightarrow> fst (paths st ! i) \<noteq> k"
    using k by (metis imageI nth_mem)
  with assms(1) k show ?thesis
    by (auto simp: wf_state_def nth_append less_Suc_eq)
qed

lemma wf_state_update:
  assumes "wf_state st" "path_map st k = Some i"
  shows "wf_state (st\<lparr>paths := (paths st)[i := (k, e)]\<rparr>)"
proof -
  from assms have i: "i < length (paths st)" "fst (paths st ! i) = k" by (auto simp: wf_state_def)
  have "map fst ((paths st)[i := (k, e)]) = map fst (paths st)"
    using i by (rule map_fst_list_update)
  moreover have "\<And>j. j < length (paths st) \<Longrightarrow> fst ((paths st)[i := (k, e)] ! j) = fst (paths st ! j)"
    using i by (auto simp: nth_list_update)
  ultimately show ?thesis using assms(1) by (auto simp: wf_state_def)
qed

lemma entry_from_Some: "entry_from L w f rs (Some e) = Some (fold (record_md_id L) rs e)"
  by (cases rs) (simp_all add: entry_from_def)

lemma entry_from_Nil: "entry_from L w f [] e0 = e0"
  by (simp add: entry_from_def)

lemma reference_step_wf:
  fixes r :: reference
  assumes "wf_state st" "index_ok w f"
  defines "rp \<equiv> parse_refs (ref_path r)"
  shows "\<exists>st'. reference_step L (files w f \<noteq> None) w f st r = Inr st' \<and> wf_state st' \<and>
     (\<forall>p. map_of (paths st') p =
        (if p = rp
         then Some (record_md_id L r (case map_of (paths st) rp of Some e \<Rightarrow> e
                                       | None \<Rightarrow> start_entry w f r))
         else map_of (paths st) p)) \<and>
     map fst (paths st') =
        (if map_of (paths st) rp = None then map fst (paths st) @ [rp] else map fst (paths st)) \<and>
     paths_updated st' =
        (if map_of (paths st) rp = None \<and> disk_entry w f rp \<noteq> None
         then insert rp (paths_updated st) else paths_updated st)"
proof (cases "map_of (paths st) rp")
  case None
  define st1 where "st1 = \<lparr>paths = paths st @ [(rp, start_entry w f r)],
      path_map = (path_map st)(rp \<mapsto> length (paths st)),
      paths_updated = (if disk_entry w f rp \<noteq> None then insert rp (paths_updated st)
                       else paths_updated st)\<rparr>"
  have f: "find_or_create (files w f \<noteq> None) w f st r = Inr st1"
    using find_or_create_wf [OF assms(1,2), of r] None by (simp add: rp_def st1_def)
  have wf1: "wf_state st1" unfolding st1_def using assms(1) None by (rule wf_state_append)
  have pm: "path_map st1 rp = Some (length (paths st))" by (simp add: st1_def)
  have "current_path st1 rp = getitem (paths st1) rp" by (rule current_path_wf [OF wf1])
  also have "\<dots> = Inr (start_entry w f r)"
    using None by (simp add: getitem_def st1_def map_add_def)
  finally have cur: "current_path st1 rp = Inr (start_entry w f r)" .
  define st' where "st' = st1\<lparr>paths := (paths st1)[length (paths st) :=
      (rp, record_md_id L r (start_entry w f r))]\<rparr>"
  have step: "reference_step L (files w f \<noteq> None) w f st r = Inr st'"
    using f cur pm by (simp add: reference_step_def Let_def rp_def [symmetric] st'_def)
  have wf': "wf_state st'" unfolding st'_def using wf1 pm by (rule wf_state_update)
  have paths': "paths st' = paths st @ [(rp, record_md_id L r (start_entry w f r))]"
    by (simp add: st'_def st1_def)
  have "\<forall>p. map_of (paths st') p =
        (if p = rp then Some (record_md_id L r (start_entry w f r)) else map_of (paths st) p)"
    using None by (auto simp: paths' map_add_def split: option.splits)
  with step wf' None paths' show ?thesis
    by (auto simp: st'_def st1_def)
next
  case (Some e)
  have f: "find_or_create (files w f \<noteq> None) w f st r = Inr st"
    using find_or_create_wf [OF assms(1,2), of r] Some by (simp add: rp_def)
  have cur: "current_path st rp = Inr e"
    using Some by (simp add: current_path_wf [OF assms(1)] getitem_def)
  from Some have "rp \<in> fst ` set (paths st)" by (metis domI dom_map_of_conv_image_fst)
  then obtain i where i: "i < length (paths st)" "fst (paths st ! i) = rp"
    by (auto simp: in_set_conv_nth)
  with assms(1) have pm: "path_map st rp = Some i" by (simp add: wf_state_def)
  from assms(1) have d: "distinct (map fst (paths st))" by (simp add: wf_state_def)
  define st' where "st' = st\<lparr>paths := (paths st)[i := (rp, record_md_id L r e)]\<rparr>"
  have step: "reference_step L (files w f \<noteq> None) w f st r = Inr st'"
    using f cur pm by (simp add: reference_step_def Let_def rp_def [symmetric] st'_def)
  have wf': "wf_state st'" unfolding st'_def using assms(1) pm by (rule wf_state_update)
  have m: "\<forall>p. map_of (paths st') p = (if p = rp then Some (record_md_id L r e) else map_of (paths st) p)"
    using map_of_list_update [OF d i] by (simp add: st'_def)
  have k: "map fst (paths st') = map fst (paths st)"
    using map_fst_list_update [OF i] by (simp add: st'_def)
  from step wf' m k Some show ?thesis by (auto simp: st'_def)
qed

lemma collect_paths_char:
  assumes "wf_state st" "index_ok w f"
  shows "\<exists>st'. collect_paths L (files w f \<noteq> None) w f refs st = Inr st' \<and> wf_state st' \<and>
     (\<forall>p. map_of (paths st') p = entry_from L w f (refs_of p refs) (map_of (paths st) p)) \<and>
     paths_updated st' = paths_updated st \<union>
        {p \<in> touched refs. map_of (paths st) p = None \<and> disk_entry w f p \<noteq> None}"
  using assms(1)
proof (induction refs arbitrary: st)
  case Nil
  then show ?case by (simp add: refs_of_def entry_from_Nil touched_def)
next
  case (Cons r refs)
  define rp where "rp = parse_refs (ref_path r)"
  from reference_step_wf [OF Cons.prems assms(2), of L r]
  obtain st1 where s1: "reference_step L (files w f \<noteq> None) w f st r = Inr st1"
    and wf1: "wf_state st1"
    and m1: "\<And>p. map_of (paths st1) p =
        (if p = rp
         then Some (record_md_id L r (case map_of (paths st) rp of Some e \<Rightarrow> e
                                       | None \<Rightarrow> start_entry w f r))
         else map_of (paths st) p)"
    and u1: "paths_updated st1 =
        (if map_of (paths st) rp = None \<and> disk_entry w f rp \<noteq> None
         then insert rp (paths_updated st) else paths_updated st)"
    unfolding rp_def by blast
  from Cons.IH [OF wf1]
  obtain st' where s': "collect_paths L (files w f \<noteq> None) w f refs st1 = Inr st'"
    and wf': "wf_state st'"
    and m': "\<And>p. map_of (paths st') p = entry_from L w f (refs_of p refs) (map_of (paths st1) p)"
    and u': "paths_updated st' = paths_updated st1 \<union>
        {p \<in> touched refs. map_of (paths st1) p = None \<and> disk_entry w f p \<noteq> None}"
    by blast
  have c: "collect_paths L (files w f \<noteq> None) w f (r # refs) st = Inr st'"
    using s1 s' by simp
  have m: "map_of (paths st') p = entry_from L w f (refs_of p (r # refs)) (map_of (paths st) p)" for p
  proof (cases "p = rp")
    case True
    then have r: "refs_of p (r # refs) = r # refs_of p refs" by (simp add: refs_of_def rp_def)
    define x where "x = (case map_of (paths st) rp of Some e \<Rightarrow> e | None \<Rightarrow> start_entry w f r)"
    have "map_of (paths st1) p = Some (record_md_id L r x)"
      using True m1 [of p] by (simp add: x_def)
    then have "map_of (paths st') p = Some (fold (record_md_id L) (refs_of p refs) (record_md_id L r x))"
      using m' [of p] by (simp add: entry_from_Some)
    moreover have "entry_from L w f (refs_of p (r # refs)) (map_of (paths st) p)
        = Some (fold (record_md_id L) (refs_of p refs) (record_md_id L r x))"
      unfolding r using True by (simp add: entry_from_def x_def split: option.splits)
    ultimately show ?thesis by simp
  next
    case False
    then have "refs_of p (r # refs) = refs_of p refs" by (simp add: refs_of_def rp_def)
    then show ?thesis using False m' [of p] m1 [of p] by simp
  qed
  have u: "paths_updated st' = paths_updated st \<union>
        {p \<in> touched (r # refs). map_of (paths st) p = None \<and> disk_entry w f p \<noteq> None}"
    unfolding u' u1 using m1 by (auto simp: touched_def rp_def)
  from c wf' m u show ?case by blast
qed

lemma index_ok_cases:
  assumes "index_ok w f"
  obtains "files w f = None" "index_lines w f = []"
  | ls where "files w f = Some (RefFile ls)" "index_lines w f = ls"
  using assms by (auto simp: index_ok_def index_lines_def split: option.splits wsfile.splits)

lemma append_lines_ok:
  "index_ok w name \<Longrightarrow>
   append_lines w name ls = Inr (w\<lparr>files := (files w)(name \<mapsto> RefFile (index_lines w name @ ls))\<rparr>)"
  by (auto simp: append_lines_def index_ok_def index_lines_def split: option.splits wsfile.splits)

lemma dump_paths_ok:
  "index_ok w name \<Longrightarrow>
   dump_paths w name ps =
     Inr (if ps = [] then w
          else w\<lparr>files := (files w)(name \<mapsto> RefFile (index_lines w name @ map json_dump ps))\<rparr>)"
proof (induction ps arbitrary: w)
  case Nil
  then show ?case by simp
next
  case (Cons p ps)
  define w1 where "w1 = w\<lparr>files := (files w)(name \<mapsto> RefFile (index_lines w name @ [json_dump p]))\<rparr>"
  have a: "append_lines w name [json_dump p] = Inr w1"
    using Cons.prems by (simp add: append_lines_ok w1_def)
  have ok1: "index_ok w1 name" by (simp add: w1_def index_ok_def)
  have l1: "index_lines w1 name = index_lines w name @ [json_dump p]"
    by (simp add: w1_def index_lines_def)
  show ?case using a Cons.IH [OF ok1] by (simp add: l1) (simp add: w1_def)
qed

lemma tmp_neq: "f @ ''.tmp'' \<noteq> f"
  by simp

lemma write_references_char:
  fixes c :: "'e creator" and w :: "'e world" and ref_file :: string
  defines "rf \<equiv> os_path_join (workspace c) ref_file"
  assumes ok: "index_ok w rf" and tmp: "files w (rf @ ''.tmp'') = None"
  shows "\<exists>st. wf_state st
     \<and> (\<forall>p. map_of (paths st) p = entry_from L w rf (refs_of p (references c)) None)
     \<and> paths_updated st = {p \<in> touched (references c). disk_entry w rf p \<noteq> None}
     \<and> write_references L c ref_file w =
         Inr (if paths st = [] then w
              else w\<lparr>files := (files w)(rf \<mapsto> RefFile
                     ([l \<leftarrow> index_lines w rf. fst l \<notin> paths_updated st] @ map json_dump (paths st)))\<rparr>)"
proof -
  from collect_paths_char [OF wf_state_init ok, of L "references c"]
  obtain st where c: "collect_paths L (files w rf \<noteq> None) w rf (references c)
        \<lparr>paths = [], path_map = Map.empty, paths_updated = {}\<rparr> = Inr st"
    and wf: "wf_state st"
    and m: "\<And>p. map_of (paths st) p = entry_from L w rf (refs_of p (references c)) None"
    and u: "paths_updated st = {p \<in> touched (references c). disk_entry w rf p \<noteq> None}"
    by auto
  show ?thesis
  proof (cases "paths_updated st = {}")
    case True
    have "rename_if_exists w (rf @ ''.tmp'') rf = w"
      using tmp by (simp add: rename_if_exists_def)
    moreover have "rename_if_exists
        (w\<lparr>files := (files w)(rf \<mapsto> RefFile (index_lines w rf @ map json_dump (paths st)))\<rparr>)
        (rf @ ''.tmp'') rf
        = w\<lparr>files := (files w)(rf \<mapsto> RefFile (index_lines w rf @ map json_dump (paths st)))\<rparr>"
      using tmp by (simp add: rename_if_exists_def)
    ultimately have "write_references L c ref_file w =
         Inr (if paths st = [] then w
              else w\<lparr>files := (files w)(rf \<mapsto> RefFile (index_lines w rf @ map json_dump (paths st)))\<rparr>)"
      using c True dump_paths_ok [OF ok, of "paths st"]
      by (simp add: write_references_def Let_def rf_def [symmetric])
    with wf m u True show ?thesis by auto
  next
    case False
    then obtain p where p: "p \<in> touched (references c)" "disk_entry w rf p \<noteq> None"
      using u by auto
    then obtain ls where ls: "files w rf = Some (RefFile ls)"
      by (auto simp: disk_entry_def split: option.splits wsfile.splits)
    then have il: "index_lines w rf = ls" by (simp add: index_lines_def)
    from p have "refs_of p (references c) \<noteq> []"
      by (auto simp: touched_def refs_of_def filter_empty_conv)
    then have "map_of (paths st) p \<noteq> None"
      using m [of p] by (cases "refs_of p (references c)") (auto simp: entry_from_def)
    then have ne: "paths st \<noteq> []" by auto
    define kept where "kept = [l \<leftarrow> ls. fst l \<notin> paths_updated st]"
    define w1 where "w1 = w\<lparr>files := (files w)(rf @ ''.tmp'' \<mapsto> RefFile kept)\<rparr>"
    have tmp_ok: "index_ok w (rf @ ''.tmp'')" using tmp by (simp add: index_ok_def)
    have a: "append_lines w (rf @ ''.tmp'') kept = Inr w1"
      using tmp by (simp add: append_lines_def w1_def)
    have ok1: "index_ok w1 (rf @ ''.tmp'')" by (simp add: w1_def index_ok_def)
    define w2 where "w2 = w1\<lparr>files := (files w1)(rf @ ''.tmp'' \<mapsto>
        RefFile (kept @ map json_dump (paths st)))\<rparr>"
    have d: "dump_paths w1 (rf @ ''.tmp'') (paths st) = Inr w2"
      using dump_paths_ok [OF ok1, of "paths st"] ne
      by (simp add: w2_def) (simp add: w1_def index_lines_def)
    have r: "rename_if_exists w2 (rf @ ''.tmp'') rf
        = w\<lparr>files := (files w)(rf \<mapsto> RefFile (kept @ map json_dump (paths st)))\<rparr>"
      using tmp by (auto simp: rename_if_exists_def w2_def w1_def fun_eq_iff)
    have "write_references L c ref_file w =
        Inr (w\<lparr>files := (files w)(rf \<mapsto> RefFile (kept @ map json_dump (paths st)))\<rparr>)"
      using c False ls a d r
      by (simp add: write_references_def Let_def rf_def [symmetric] json_loads_def kept_def [symmetric])
    with wf m u ne il show ?thesis by (auto simp: kept_def)
  qed
qed




lemma no_line_lookup:
  assumes "p \<notin> fst ` set ls"
  shows "map_of ls p = None" and "map_of (rev ls) p = None"
  using assms by (simp_all add: map_of_eq_None_iff)






lemma md_ids_load_dump [simp]: "md_ids (load_entry (dump_entry e)) = md_ids e"
  by (simp add: load_entry_def dump_entry_def)

lemma path_type_load_dump [simp]: "path_type (load_entry (dump_entry e)) = path_type e"
  by (simp add: load_entry_def dump_entry_def)

lemma entry_from_None_iff:
  "entry_from L w f (refs_of p refs) None \<noteq> None \<longleftrightarrow> p \<in> touched refs"
proof -
  have "refs_of p refs \<noteq> [] \<longleftrightarrow> p \<in> touched refs"
    by (auto simp: refs_of_def touched_def filter_empty_conv)
  then show ?thesis by (cases "refs_of p refs") (auto simp: entry_from_def)
qed

lemma write_references_summary:
  fixes c :: "'e creator" and w :: "'e world" and ref_file :: string
  defines "rf \<equiv> os_path_join (workspace c) ref_file"
  assumes ok: "index_ok w rf" and tmp: "files w (rf @ ''.tmp'') = None"
  shows "\<exists>ps. distinct (map fst ps)
     \<and> (\<forall>p. map_of ps p = entry_from L w rf (refs_of p (references c)) None)
     \<and> fst ` set ps = touched (references c)
     \<and> write_references L c ref_file w =
         Inr (if ps = [] then w
              else w\<lparr>files := (files w)(rf \<mapsto> RefFile
                     ([l \<leftarrow> index_lines w rf. fst l \<notin> touched (references c)]
                        @ map json_dump ps))\<rparr>)"
proof -
  from write_references_char [of w c ref_file L] ok tmp
  obtain st where wf: "wf_state st"
    and m: "\<And>p. map_of (paths st) p = entry_from L w rf (refs_of p (references c)) None"
    and u: "paths_updated st = {p \<in> touched (references c). disk_entry w rf p \<noteq> None}"
    and wr: "write_references L c ref_file w =
         Inr (if paths st = [] then w
              else w\<lparr>files := (files w)(rf \<mapsto> RefFile
                     ([l \<leftarrow> index_lines w rf. fst l \<notin> paths_updated st] @ map json_dump (paths st)))\<rparr>)"
    unfolding rf_def by blast
  have d: "distinct (map fst (paths st))" using wf by (simp add: wf_state_def)
  have "fst ` set (paths st) = {p. map_of (paths st) p \<noteq> None}"
    by (auto simp: map_of_eq_None_iff)
  also have "\<dots> = touched (references c)"
    unfolding m entry_from_None_iff by simp
  finally have k: "fst ` set (paths st) = touched (references c)" .
  have "fst l \<notin> paths_updated st \<longleftrightarrow> fst l \<notin> touched (references c)"
    if "l \<in> set (index_lines w rf)" for l
  proof -
    from ok that obtain ls where ls: "files w rf = Some (RefFile ls)" "l \<in> set ls"
      by (cases rule: index_ok_cases) auto
    then have "map_of ls (fst l) \<noteq> None" by (simp add: map_of_eq_None_iff)
    then have "disk_entry w rf (fst l) \<noteq> None" using ls by (simp add: disk_entry_def)
    then show ?thesis by (simp add: u)
  qed
  then have "[l \<leftarrow> index_lines w rf. fst l \<notin> paths_updated st]
      = [l \<leftarrow> index_lines w rf. fst l \<notin> touched (references c)]"
    by (intro filter_cong) auto
  with wr d m k show ?thesis by auto
qed



text \<open>
  Claim C2, as amended. In a workspace that holds the index file and no file named
  \<^verbatim>\<open><index>.tmp\<close>, a flush succeeds and leaves as the index: when a line of the file has
  a path of the batch, the lines whose path the batch does not refer to, unchanged and in
  order, followed by one serialized line per path of the batch; otherwise all the lines of
  the file followed by these lines. No temporary file is left, nothing else changes.
\<close>

theorem write_references_merge:
  fixes c :: "'e creator" and w :: "'e world"
  assumes "files w (os_path_join (workspace c) ref_file) = Some (RefFile old)"
    and "files w (os_path_join (workspace c) ref_file @ ''.tmp'') = None"
  shows "\<exists>ps w'. write_references L c ref_file w = Inr w'
     \<and> distinct (map fst ps) \<and> fst ` set ps = touched (references c)
     \<and> (\<forall>p. map_of ps p
            = entry_from L w (os_path_join (workspace c) ref_file) (refs_of p (references c)) None)
     \<and> files w' = (files w)(os_path_join (workspace c) ref_file \<mapsto> RefFile
          ((if \<exists>l \<in> set old. fst l \<in> touched (references c)
            then [l \<leftarrow> old. fst l \<notin> touched (references c)]
            else old) @ map json_dump ps))
     \<and> files w' (os_path_join (workspace c) ref_file @ ''.tmp'') = None
     \<and> stdout w' = stdout w"
proof -
  define rf where "rf = os_path_join (workspace c) ref_file"
  have ok: "index_ok w rf" and il: "index_lines w rf = old"
    using assms(1) by (simp_all add: rf_def index_ok_def index_lines_def)
  from write_references_summary [of w c ref_file L] ok assms(2)
  obtain ps where d: "distinct (map fst ps)"
    and k: "fst ` set ps = touched (references c)"
    and m: "\<forall>p. map_of ps p
            = entry_from L w (os_path_join (workspace c) ref_file) (refs_of p (references c)) None"
    and wr: "write_references L c ref_file w =
         Inr (if ps = [] then w
              else w\<lparr>files := (files w)(rf \<mapsto> RefFile
                     ([l \<leftarrow> old. fst l \<notin> touched (references c)] @ map json_dump ps))\<rparr>)"
    unfolding rf_def il [unfolded rf_def] by blast
  define new where "new = (if \<exists>l \<in> set old. fst l \<in> touched (references c)
            then [l \<leftarrow> old. fst l \<notin> touched (references c)]
            else old) @ map json_dump ps"
  have same: "(if \<exists>l \<in> set old. fst l \<in> touched (references c)
            then [l \<leftarrow> old. fst l \<notin> touched (references c)] else old)
      = [l \<leftarrow> old. fst l \<notin> touched (references c)]"
    by (auto simp: filter_id_conv)
  define w' where "w' = (if ps = [] then w else w\<lparr>files := (files w)(rf \<mapsto> RefFile new)\<rparr>)"
  have wr': "write_references L c ref_file w = Inr w'"
    using wr by (simp add: w'_def new_def same)
  have f: "files w' = (files w)(rf \<mapsto> RefFile new)"
  proof (cases "ps = []")
    case True
    with k have "touched (references c) = {}" by auto
    then have "new = old" using True by (simp add: new_def)
    with True assms(1) show ?thesis by (auto simp: w'_def rf_def fun_eq_iff)
  next
    case False
    then show ?thesis by (simp add: w'_def)
  qed
  have "files w' (rf @ ''.tmp'') = None" using assms(2) by (simp add: f rf_def)
  moreover have "stdout w' = stdout w" by (simp add: w'_def)
  ultimately show ?thesis using wr' d k m f unfolding rf_def new_def by blast
qed

text \<open>
  Claim C2 as stated fails when a file \<^verbatim>\<open><index>.tmp\<close> is left in the workspace: a
  batch that refers to a path the index does not have is appended to the index, and then
  the index is replaced by the left-over file. The line of the index and the new line are
  both lost.
\<close>

theorem write_references_stale_tmp:
  "(case write_references sorted_list_of_set
           (add_reference (MetsSectionCreator ''ws'') ''_b'' (Some ''data/b.tif'') None None)
           ''refs.json''
           (\<lparr>files = [''ws/refs.json'' \<mapsto> RefFile [(''data/a.tif'', \<lparr>path_type = ''file'', streams = [], md_ids = [''_a'']\<rparr>)],
                     ''ws/refs.json.tmp'' \<mapsto> RefFile [(''data/old.tif'', \<lparr>path_type = ''file'', streams = [], md_ids = [''_o'']\<rparr>)]],
             stdout = []\<rparr> :: unit world) of
      Inl e \<Rightarrow> None
    | Inr w' \<Rightarrow> files w' ''ws/refs.json'')
   = Some (RefFile [(''data/old.tif'', \<lparr>path_type = ''file'', streams = [], md_ids = [''_o'']\<rparr>)])"
  by code_simp



lemma record_md_id_no_stream:
  "\<not> has_stream r \<Longrightarrow>
   record_md_id L r e = e\<lparr>md_ids := uniques_list L (md_ids e) (ref_md_id r)\<rparr>"
  by (auto simp: has_stream_def record_md_id_def split: option.splits)

lemma record_md_id_stream:
  "ref_stream r = Some s \<Longrightarrow> truthy_key s \<Longrightarrow>
   record_md_id L r e = e\<lparr>streams := AList.update s
       (case map_of (streams e) s of Some ids \<Rightarrow> uniques_list L ids (ref_md_id r)
        | None \<Rightarrow> [ref_md_id r]) (streams e)\<rparr>"
  by (auto simp: record_md_id_def setitem_def getitem_def split: option.splits)

lemma has_stream_cases:
  obtains "\<not> has_stream r" | s where "ref_stream r = Some s" "truthy_key s" "has_stream r"
proof (cases "has_stream r")
  case True
  then obtain s where "ref_stream r = Some s" "truthy_key s"
    by (auto simp: has_stream_def split: option.splits)
  with True that(2) show ?thesis by blast
next
  case False
  with that(1) show ?thesis by blast
qed

lemma record_md_id_path_type [simp]: "path_type (record_md_id L r e) = path_type e"
  by (cases r rule: has_stream_cases) (simp_all add: record_md_id_no_stream record_md_id_stream)





lemma fold_record_path_type [simp]: "path_type (fold (record_md_id L) rs e) = path_type e"
  by (induction rs arbitrary: e) simp_all



lemma record_md_id_stream_key:
  "map_of (streams e) s \<noteq> None \<or> (ref_stream r = Some s \<and> truthy_key s) \<Longrightarrow>
   map_of (streams (record_md_id L r e)) s \<noteq> None"
  by (cases r rule: has_stream_cases)
     (auto simp: record_md_id_no_stream record_md_id_stream update_conv' has_stream_def)

lemma fold_record_stream_key:
  "map_of (streams e) s \<noteq> None \<or> (\<exists>r \<in> set rs. ref_stream r = Some s \<and> truthy_key s) \<Longrightarrow>
   map_of (streams (fold (record_md_id L) rs e)) s \<noteq> None"
proof (induction rs arbitrary: e)
  case Nil
  then show ?case by simp
next
  case (Cons r rs)
  show ?case
  proof (cases "map_of (streams e) s \<noteq> None \<or> (ref_stream r = Some s \<and> truthy_key s)")
    case True
    then have "map_of (streams (record_md_id L r e)) s \<noteq> None" by (rule record_md_id_stream_key)
    then show ?thesis using Cons.IH [of "record_md_id L r e"] by simp
  next
    case False
    with Cons.prems have "\<exists>r \<in> set rs. ref_stream r = Some s \<and> truthy_key s" by auto
    then show ?thesis using Cons.IH [of "record_md_id L r e"] by simp
  qed
qed









lemma md_ids_dump [simp]: "md_ids (dump_entry e) = md_ids e"
  by (simp add: dump_entry_def)

lemma md_ids_load [simp]: "md_ids (load_entry j) = md_ids j"
  by (simp add: load_entry_def)





















text \<open>
  Claim C3. Two calls of \<^verbatim>\<open>write_md\<close> for the same element and the same
  \<^verbatim>\<open>mdtype\<close>, \<^verbatim>\<open>mdtypeversion\<close>, \<^verbatim>\<open>othermdtype\<close> and section return the same pair:
  the ID is \<^verbatim>\<open>_\<close> followed by the digest, the file name is made from the digest and the
  suffix. The first call writes the file when it is missing and changes nothing else; the
  second call leaves the workspace and the output as they are.
\<close>

theorem write_md_idempotent:
  fixes w :: "'e world" and c :: "'e creator"
  shows "\<exists>md_id filename w1.
      write_md gd ep c E mdtype ver other section so w = ((md_id, filename), w1)
    \<and> write_md gd ep c E mdtype ver other section so' w1 = ((md_id, filename), w1)
    \<and> md_id = ''_'' @ gd E
    \<and> filename = os_path_join (workspace c)
          (ep (gd E @ ''-'' @ (if truthy_str other then the other else mdtype) @ ''-amd.xml''))
    \<and> w1 = (if files w filename = None
            then w\<lparr>files := (files w)(filename \<mapsto> MdFile
                     \<lparr>amd_kind = (if section = Some ''digiprovmd'' then Digiprovmd else Techmd),
                      amd_id = md_id, wrap_mdtype = mdtype, wrap_mdtypeversion = ver,
                      wrap_othermdtype = other, xmldata = E\<rparr>),
                   stdout := stdout w @ (if so then [PrintedDoc
                     \<lparr>amd_kind = (if section = Some ''digiprovmd'' then Digiprovmd else Techmd),
                      amd_id = md_id, wrap_mdtype = mdtype, wrap_mdtypeversion = ver,
                      wrap_othermdtype = other, xmldata = E\<rparr>] else [])
                     @ [WroteMd mdtype filename]\<rparr>
            else w)
    \<and> dom (files w1) = insert filename (dom (files w))"
  by (auto simp: write_md_def Let_def)

lemma set_lister_sorted: "set_lister sorted_list_of_set"
  by (simp add: set_lister_def)


theorem write_references_merge_witness:
  "files (\<lparr>files = [''ws/md-references.json'' \<mapsto> RefFile
              [(''data/a.tif'', \<lparr>path_type = ''file'', streams = [], md_ids = [''_a'']\<rparr>),
               (''data/b.tif'', \<lparr>path_type = ''file'', streams = [], md_ids = [''_a'']\<rparr>)]],
           stdout = []\<rparr> :: unit world)
      (os_path_join (workspace (add_reference (MetsSectionCreator ''ws'' :: unit creator)
           ''_b'' (Some ''data/a.tif'') None None)) ''md-references.json'')
     = Some (RefFile
              [(''data/a.tif'', \<lparr>path_type = ''file'', streams = [], md_ids = [''_a'']\<rparr>),
               (''data/b.tif'', \<lparr>path_type = ''file'', streams = [], md_ids = [''_a'']\<rparr>)])
   \<and> (case write_references sorted_list_of_set
              (add_reference (MetsSectionCreator ''ws'' :: unit creator)
                 ''_b'' (Some ''data/a.tif'') None None)
              ''md-references.json''
              \<lparr>files = [''ws/md-references.json'' \<mapsto> RefFile
                 [(''data/a.tif'', \<lparr>path_type = ''file'', streams = [], md_ids = [''_a'']\<rparr>),
                  (''data/b.tif'', \<lparr>path_type = ''file'', streams = [], md_ids = [''_a'']\<rparr>)]],
                stdout = []\<rparr> of
         Inl e \<Rightarrow> None
       | Inr w' \<Rightarrow> files w' ''ws/md-references.json'')
     = Some (RefFile
              [(''data/b.tif'', \<lparr>path_type = ''file'', streams = [], md_ids = [''_a'']\<rparr>),
               (''data/a.tif'', \<lparr>path_type = ''file'', streams = [], md_ids = [''_a'', ''_b'']\<rparr>)])
   \<and> (\<exists>ps w'. write_references sorted_list_of_set
              (add_reference (MetsSectionCreator ''ws'' :: unit creator)
                 ''_b'' (Some ''data/a.tif'') None None)
              ''md-references.json''
              \<lparr>files = [''ws/md-references.json'' \<mapsto> RefFile
                 [(''data/a.tif'', \<lparr>path_type = ''file'', streams = [], md_ids = [''_a'']\<rparr>),
                  (''data/b.tif'', \<lparr>path_type = ''file'', streams = [], md_ids = [''_a'']\<rparr>)]],
                stdout = []\<rparr> = Inr w'
          \<and> distinct (map fst ps) \<and> fst ` set ps = {''data/a.tif''}
          \<and> files w' ''ws/md-references.json'' = Some (RefFile
                ((''data/b.tif'', \<lparr>path_type = ''file'', streams = [], md_ids = [''_a'']\<rparr>)
                 # map json_dump ps))
          \<and> files w' ''ws/md-references.json.tmp'' = None)"
proof -
  define w :: "unit world" where "w = \<lparr>files = [''ws/md-references.json'' \<mapsto> RefFile
                 [(''data/a.tif'', \<lparr>path_type = ''file'', streams = [], md_ids = [''_a'']\<rparr>),
                  (''data/b.tif'', \<lparr>path_type = ''file'', streams = [], md_ids = [''_a'']\<rparr>)]],
                stdout = []\<rparr>"
  define c :: "unit creator" where "c = add_reference (MetsSectionCreator ''ws'')
                 ''_b'' (Some ''data/a.tif'') None None"
  have j: "os_path_join (workspace c) ''md-references.json'' = ''ws/md-references.json''"
    by (simp add: c_def add_reference_def MetsSectionCreator_def os_path_join_def)
  have t: "touched (references c) = {''data/a.tif''}"
    by (simp add: c_def add_reference_def MetsSectionCreator_def touched_def parse_refs_def)
  have h1: "files w (os_path_join (workspace c) ''md-references.json'')
     = Some (RefFile
              [(''data/a.tif'', \<lparr>path_type = ''file'', streams = [], md_ids = [''_a'']\<rparr>),
               (''data/b.tif'', \<lparr>path_type = ''file'', streams = [], md_ids = [''_a'']\<rparr>)])"
    by (simp add: j) (simp add: w_def)
  have h2: "files w (os_path_join (workspace c) ''md-references.json'' @ ''.tmp'') = None"
    by (simp add: j) (simp add: w_def)
  have ev: "(case write_references sorted_list_of_set c ''md-references.json'' w of
         Inl e \<Rightarrow> None
       | Inr w' \<Rightarrow> files w' ''ws/md-references.json'')
     = Some (RefFile
              [(''data/b.tif'', \<lparr>path_type = ''file'', streams = [], md_ids = [''_a'']\<rparr>),
               (''data/a.tif'', \<lparr>path_type = ''file'', streams = [], md_ids = [''_a'', ''_b'']\<rparr>)])"
    unfolding c_def w_def by code_simp
  from write_references_merge [OF h1 h2, of sorted_list_of_set]
  obtain ps w' where "write_references sorted_list_of_set c ''md-references.json'' w = Inr w'"
    "distinct (map fst ps)" "fst ` set ps = {''data/a.tif''}"
    "files w' ''ws/md-references.json'' = Some (RefFile
                ((''data/b.tif'', \<lparr>path_type = ''file'', streams = [], md_ids = [''_a'']\<rparr>)
                 # map json_dump ps))"
    "files w' ''ws/md-references.json.tmp'' = None"
    unfolding t j by auto
  then have "\<exists>ps w'. write_references sorted_list_of_set c ''md-references.json'' w = Inr w'
          \<and> distinct (map fst ps) \<and> fst ` set ps = {''data/a.tif''}
          \<and> files w' ''ws/md-references.json'' = Some (RefFile
                ((''data/b.tif'', \<lparr>path_type = ''file'', streams = [], md_ids = [''_a'']\<rparr>)
                 # map json_dump ps))
          \<and> files w' ''ws/md-references.json.tmp'' = None"
    by blast
  with h1 ev show ?thesis unfolding c_def w_def by blast
qed




section \<open>Properties of the digest\<close>





end
